theory Spec2Isabelle
  imports Complex_Main "HOL-Library.AList" "HOL-Library.Multiset" "HOL-Library.Sublist"
begin

section \<open>ReACT extractor: data model\<close>

text \<open>
  The program of \<^verbatim>\<open>react_extractor/extractor.py\<close> reads a metrics table (a pandas
  DataFrame) and a collection of reference entries (a list of JSON objects), and
  returns the entries tagged with a feature whose three-month sum is not above its
  all-rows mean, ordered by importance.

  Numbers are exact rationals: the rounding of the 64-bit floats that pandas computes
  with is outside this model. Every cell of a table is a number; a missing value (NaN)
  arises in the model only where the code itself produces one, namely as the mean of a
  column without rows, and is the value \<open>None\<close> of \<open>rat option\<close>. Strings are lists
  of ASCII characters; the characters beyond ASCII that Python counts as white space
  are not modelled. Of the input and output, the model has the values read and the
  values written, not the failures of the file system.
\<close>

datatype error = KeyError string

text \<open>
  A DataFrame: the names of its columns and its rows, each row giving the cell of every
  column. Only the cells of the named columns can be read.
\<close>

record table =
  columns :: "string list"
  rows :: "(string \<Rightarrow> rat) list"

text \<open>A Python dict: an association list in insertion order; storing under a key that
  is present replaces the value in place, as \<open>AList.update\<close> does.\<close>

type_synonym ('k, 'v) dict = "('k \<times> 'v) list"

definition dict_get :: "(string, 'v) dict \<Rightarrow> string \<Rightarrow> error + 'v" where
  "dict_get d k = (case map_of d k of None \<Rightarrow> Inl (KeyError k) | Some v \<Rightarrow> Inr v)"

subsection \<open>The pandas operations the code calls\<close>

text \<open>\<^verbatim>\<open>df[name]\<close>: the column as a series, or a KeyError.\<close>

definition getcol :: "table \<Rightarrow> string \<Rightarrow> error + rat list" where
  "getcol df name =
     (if name \<in> set (columns df) then Inr (map (\<lambda>r. r name) (rows df))
      else Inl (KeyError name))"

text \<open>\<^verbatim>\<open>series.mean()\<close>: NaN for a series without values.\<close>

definition series_mean :: "rat list \<Rightarrow> rat option" where
  "series_mean vs = (if vs = [] then None else Some (sum_list vs / of_nat (length vs)))"

text \<open>\<^verbatim>\<open>series.sum()\<close>: zero for a series without values.\<close>

definition series_sum :: "rat list \<Rightarrow> rat" where
  "series_sum vs = sum_list vs"

text \<open>\<^verbatim>\<open>(s >= lo) & (s <= hi)\<close>: the boolean mask of a series.\<close>

definition between_mask :: "rat list \<Rightarrow> int \<Rightarrow> int \<Rightarrow> bool list" where
  "between_mask s lo hi = map (\<lambda>v. of_int lo \<le> v \<and> v \<le> of_int hi) s"

text \<open>\<^verbatim>\<open>df[mask]\<close>: the rows at which the mask holds.\<close>

definition select_rows :: "table \<Rightarrow> bool list \<Rightarrow> table" where
  "select_rows df bmask = df\<lparr>rows := map fst (filter snd (zip (rows df) bmask))\<rparr>"

text \<open>Arithmetic and comparison with NaN: a difference with NaN is NaN, and NaN is not
  below or equal to anything.\<close>

definition nan_diff :: "rat \<Rightarrow> rat option \<Rightarrow> rat option" where
  "nan_diff a b = (case b of None \<Rightarrow> None | Some m \<Rightarrow> Some (a - m))"

definition le_zero :: "rat option \<Rightarrow> bool" where
  "le_zero d = (case d of None \<Rightarrow> False | Some x \<Rightarrow> x \<le> 0)"

section \<open>The feature trend evaluator\<close>

text \<open>The first loop of \<^verbatim>\<open>calculate_feature_differences\<close>: the mean of every
  feature's column over all rows.\<close>

fun avg_loop ::
  "table \<Rightarrow> string list \<Rightarrow> (string, rat option) dict \<Rightarrow> error + (string, rat option) dict"
where
  "avg_loop df [] d = Inr d"
| "avg_loop df (feature # fs) d =
     (case getcol df feature of
        Inl e \<Rightarrow> Inl e
      | Inr s \<Rightarrow> avg_loop df fs (AList.update feature (series_mean s) d))"

text \<open>The second loop: the sum of every feature's column over the rows whose month lies
  in the window. The month column is read first, then the feature's column of the
  selected rows.\<close>

fun monthly_loop ::
  "table \<Rightarrow> int \<Rightarrow> string list \<Rightarrow> (string, rat) dict \<Rightarrow> error + (string, rat) dict"
where
  "monthly_loop df month_n [] d = Inr d"
| "monthly_loop df month_n (feature # fs) d =
     (case getcol df ''month'' of
        Inl e \<Rightarrow> Inl e
      | Inr ms \<Rightarrow>
          (case getcol (select_rows df (between_mask ms (month_n - 2) month_n)) feature of
             Inl e \<Rightarrow> Inl e
           | Inr monthly_values \<Rightarrow>
               monthly_loop df month_n fs (AList.update feature (series_sum monthly_values) d)))"

text \<open>The third loop: the difference of the two, per feature.\<close>

fun diff_loop ::
  "(string, rat) dict \<Rightarrow> (string, rat option) dict \<Rightarrow> string list \<Rightarrow>
   (string, rat option) dict \<Rightarrow> error + (string, rat option) dict"
where
  "diff_loop monthly avg [] d = Inr d"
| "diff_loop monthly avg (feature # fs) d =
     (case dict_get monthly feature of
        Inl e \<Rightarrow> Inl e
      | Inr w \<Rightarrow>
          (case dict_get avg feature of
             Inl e \<Rightarrow> Inl e
           | Inr a \<Rightarrow> diff_loop monthly avg fs (AList.update feature (nan_diff w a) d)))"

definition calculate_feature_differences ::
  "table \<Rightarrow> int \<Rightarrow> string list \<Rightarrow> error + string list"
where
  "calculate_feature_differences df month_n feature_list =
     (case avg_loop df feature_list [] of
        Inl e \<Rightarrow> Inl e
      | Inr avg_feature_values \<Rightarrow>
          (case monthly_loop df month_n feature_list [] of
             Inl e \<Rightarrow> Inl e
           | Inr monthly_feature_values \<Rightarrow>
               (case diff_loop monthly_feature_values avg_feature_values feature_list [] of
                  Inl e \<Rightarrow> Inl e
                | Inr differences \<Rightarrow>
                    Inr (map fst (filter (\<lambda>(feature, diff). le_zero diff) differences)))))"

section \<open>The entry selector\<close>

text \<open>A reference entry: a JSON object, of which the program reads the keys
  \<^verbatim>\<open>Features\<close> and \<^verbatim>\<open>Importance\<close>; either may be absent. The rest of the object
  is the extension of the record.\<close>

record entry =
  Features :: "string option"
  Importance :: "rat option"

text \<open>\<^verbatim>\<open>s.split(",")\<close>: the pieces between the commas; a string without a comma,
  the empty string too, is one piece.\<close>

fun split_comma :: "string \<Rightarrow> string list" where
  "split_comma [] = [[]]"
| "split_comma (c # cs) =
     (if c = CHR '','' then [] # split_comma cs
      else (case split_comma cs of
              [] \<Rightarrow> [[c]]
            | t # ts \<Rightarrow> (c # t) # ts))"

text \<open>The characters \<^verbatim>\<open>str.strip\<close> removes, among the first 128: tab, line feed,
  vertical tab, form feed, carriage return, the four separators 28 to 31 and the
  space.\<close>

definition is_space :: "char \<Rightarrow> bool" where
  "is_space c =
     (let n = (of_char c :: nat) in (9 \<le> n \<and> n \<le> 13) \<or> (28 \<le> n \<and> n \<le> 32))"

definition strip :: "string \<Rightarrow> string" where
  "strip s = rev (dropWhile is_space (rev (dropWhile is_space s)))"

text \<open>\<^verbatim>\<open>set(map(str.strip, entry.get("Features", "").split(",")))\<close>\<close>

definition entry_features :: "'a entry_scheme \<Rightarrow> string set" where
  "entry_features entry =
     set (map strip (split_comma (case Features entry of None \<Rightarrow> [] | Some s \<Rightarrow> s)))"

fun filter_loop ::
  "'a entry_scheme list \<Rightarrow> string list \<Rightarrow> 'a entry_scheme list \<Rightarrow> 'a entry_scheme list"
where
  "filter_loop [] features filtered_data = filtered_data"
| "filter_loop (entry # rest) features filtered_data =
     (if list_ex (\<lambda>feature. feature \<in> entry_features entry) features
      then filter_loop rest features (filtered_data @ [entry])
      else filter_loop rest features filtered_data)"

definition filter_json_by_features ::
  "'a entry_scheme list \<Rightarrow> string list \<Rightarrow> 'a entry_scheme list"
where
  "filter_json_by_features data features = filter_loop data features []"

text \<open>\<^verbatim>\<open>x.get("Importance", 0)\<close>\<close>

definition importance_key :: "'a entry_scheme \<Rightarrow> rat" where
  "importance_key x = (case Importance x of None \<Rightarrow> 0 | Some v \<Rightarrow> v)"

text \<open>\<^verbatim>\<open>sorted(xs, key=key, reverse=True)\<close>: Python's sort is stable, and with
  \<^verbatim>\<open>reverse=True\<close> it reverses the list, sorts it ascending and reverses the
  result, so that elements with equal keys keep their order.\<close>

definition sorted_reverse :: "('a \<Rightarrow> rat) \<Rightarrow> 'a list \<Rightarrow> 'a list" where
  "sorted_reverse key xs = rev (sort_key key (rev xs))"

section \<open>The pipeline\<close>

text \<open>What a run writes: a JSON array or a JSON object dumped to
  \<^verbatim>\<open>output/extracted_react.json\<close>, a line or a JSON array printed.\<close>

datatype 'e event =
    Dump_list "'e list"
  | Dump_dict "(int \<times> 'e list) list"
  | Print_text string
  | Print_json "'e list"

definition feature_list :: "string list" where
  "feature_list =
     [''s_avg_clustering_coef'', ''t_num_dev_nodes'', ''t_num_dev_per_file'',
      ''t_graph_density'', ''st_num_dev'', ''t_net_overlap'']"

definition ReACT_Extractor ::
  "'a entry_scheme list \<Rightarrow> table \<Rightarrow> int \<Rightarrow> bool \<Rightarrow>
   error + ('a entry_scheme list \<times> 'a entry_scheme event list)"
where
  "ReACT_Extractor original_data feature_data month_n write_output =
     (case calculate_feature_differences feature_data month_n feature_list of
        Inl e \<Rightarrow> Inl e
      | Inr processed_features \<Rightarrow>
          (let filtered_json = filter_json_by_features original_data processed_features;
               sorted_json = sorted_reverse importance_key filtered_json
           in Inr (sorted_json,
                   if write_output
                   then [Dump_list sorted_json,
                         Print_text ''ReACTs saved in `extracted_react.json` file.'']
                   else [])))"

text \<open>\<^verbatim>\<open>series.unique()\<close>: the distinct values, in the order of their first
  appearance.\<close>

fun series_unique :: "rat list \<Rightarrow> rat list" where
  "series_unique [] = []"
| "series_unique (v # vs) = v # filter (\<lambda>w. w \<noteq> v) (series_unique vs)"

text \<open>\<^verbatim>\<open>int(m)\<close>: the integer towards zero.\<close>

definition py_int :: "rat \<Rightarrow> int" where
  "py_int m = (if 0 \<le> m then \<lfloor>m\<rfloor> else \<lceil>m\<rceil>)"

text \<open>The loop of the all-months mode, with the dict it fills and the events of the
  calls it makes.\<close>

fun all_loop ::
  "'a entry_scheme list \<Rightarrow> table \<Rightarrow> rat list \<Rightarrow>
   (int, 'a entry_scheme list) dict \<Rightarrow> 'a entry_scheme event list \<Rightarrow>
   error + ((int, 'a entry_scheme list) dict \<times> 'a entry_scheme event list)"
where
  "all_loop original_data feature_data [] all_results out = Inr (all_results, out)"
| "all_loop original_data feature_data (m # ms) all_results out =
     (case ReACT_Extractor original_data feature_data (py_int m) False of
        Inl e \<Rightarrow> Inl e
      | Inr (result_for_month, written) \<Rightarrow>
          all_loop original_data feature_data ms
            (AList.update (py_int m) result_for_month all_results) (out @ written))"

text \<open>The body of \<^verbatim>\<open>main\<close> once the arguments are parsed and the two files are
  loaded; the result is what the run writes.\<close>

definition main_body ::
  "bool \<Rightarrow> int \<Rightarrow> 'a entry_scheme list \<Rightarrow> table \<Rightarrow> error + 'a entry_scheme event list"
where
  "main_body args_all args_month original_data feature_data =
     (if args_all then
        (case getcol feature_data ''month'' of
           Inl e \<Rightarrow> Inl e
         | Inr months \<Rightarrow>
             (case all_loop original_data feature_data (sort (series_unique months)) [] [] of
                Inl e \<Rightarrow> Inl e
              | Inr (all_results, out) \<Rightarrow>
                  Inr (out @ [Dump_dict all_results,
                              Print_text
                                ''ReACTs for ALL months saved in `extracted_react.json` file.''])))
      else
        (case ReACT_Extractor original_data feature_data args_month True of
           Inl e \<Rightarrow> Inl e
         | Inr (reacts, out) \<Rightarrow> Inr (out @ [Print_json reacts])))"

section \<open>The selector and the pipeline on a store\<close>

text \<open>
  To say what a call leaves as it was, the objects are placed in a store: the dicts of
  the entries and the Python lists, each at an address (its index); a list holds
  addresses of dicts. The functions above are the functions below read on the values
  the addresses stand for. The store functions take the store and return the new one.
\<close>

record 'a store =
  dicts :: "'a entry_scheme list"
  pylists :: "nat list list"

text \<open>A new list object; its address is the next free one.\<close>

definition new_list :: "'a store \<Rightarrow> nat list \<Rightarrow> nat \<times> 'a store" where
  "new_list s xs = (length (pylists s), s\<lparr>pylists := pylists s @ [xs]\<rparr>)"

text \<open>\<^verbatim>\<open>l.append(x)\<close>: the list object at \<open>l\<close> is changed in place.\<close>

definition list_append :: "'a store \<Rightarrow> nat \<Rightarrow> nat \<Rightarrow> 'a store" where
  "list_append s l x = s\<lparr>pylists := (pylists s)[l := pylists s ! l @ [x]]\<rparr>"

text \<open>
  The loop of \<^verbatim>\<open>filter_json_by_features\<close>. The iteration over \<open>data\<close> reads the
  list object at every step, at the index \<open>i\<close>, and ends when the index reaches its
  length at that moment: it would not end if the body appended to \<open>data\<close> itself.
\<close>

partial_function (option) filter_loop_st ::
  "'a store \<Rightarrow> nat \<Rightarrow> nat \<Rightarrow> string list \<Rightarrow> nat \<Rightarrow> 'a store option"
where
  "filter_loop_st s data i features filtered_data =
     (if i < length (pylists s ! data) then
        (if list_ex (\<lambda>feature. feature \<in> entry_features (dicts s ! (pylists s ! data ! i)))
              features
         then filter_loop_st (list_append s filtered_data (pylists s ! data ! i))
                data (Suc i) features filtered_data
         else filter_loop_st s data (Suc i) features filtered_data)
      else Some s)"

definition filter_json_by_features_st ::
  "'a store \<Rightarrow> nat \<Rightarrow> string list \<Rightarrow> (nat \<times> 'a store) option"
where
  "filter_json_by_features_st s data features =
     (case new_list s [] of
        (filtered_data, s1) \<Rightarrow>
          (case filter_loop_st s1 data 0 features filtered_data of
             None \<Rightarrow> None
           | Some s2 \<Rightarrow> Some (filtered_data, s2)))"

text \<open>\<^verbatim>\<open>sorted(xs, key=lambda x: x.get("Importance", 0), reverse=True)\<close>: a new
  list object.\<close>

definition sorted_st :: "'a store \<Rightarrow> nat \<Rightarrow> nat \<times> 'a store" where
  "sorted_st s xs =
     new_list s (sorted_reverse (\<lambda>x. importance_key (dicts s ! x)) (pylists s ! xs))"

definition ReACT_Extractor_st ::
  "'a store \<Rightarrow> nat \<Rightarrow> table \<Rightarrow> int \<Rightarrow> bool \<Rightarrow>
   (error + (nat \<times> 'a entry_scheme event list \<times> 'a store)) option"
where
  "ReACT_Extractor_st s original_data feature_data month_n write_output =
     (case calculate_feature_differences feature_data month_n feature_list of
        Inl e \<Rightarrow> Some (Inl e)
      | Inr processed_features \<Rightarrow>
          (case filter_json_by_features_st s original_data processed_features of
             None \<Rightarrow> None
           | Some (filtered_json, s1) \<Rightarrow>
               (case sorted_st s1 filtered_json of
                  (sorted_json, s2) \<Rightarrow>
                    Some (Inr (sorted_json,
                      (if write_output
                       then [Dump_list (map (\<lambda>x. dicts s2 ! x) (pylists s2 ! sorted_json)),
                             Print_text ''ReACTs saved in `extracted_react.json` file.'']
                       else []),
                      s2)))))"

section \<open>Notions used in the statements\<close>

text \<open>The keys of a dict after storing under the keys \<open>fs\<close> in turn, when it had the
  keys \<open>ks\<close>: a key that is new goes to the end, a key that is present keeps its
  place.\<close>

fun key_order :: "'a list \<Rightarrow> 'a list \<Rightarrow> 'a list" where
  "key_order ks [] = ks"
| "key_order ks (f # fs) = key_order (if f \<in> set ks then ks else ks @ [f]) fs"

text \<open>The rows of the evaluation window of a month.\<close>

definition window_rows :: "table \<Rightarrow> int \<Rightarrow> (string \<Rightarrow> rat) list" where
  "window_rows df month_n =
     filter (\<lambda>r. of_int (month_n - 2) \<le> r ''month'' \<and> r ''month'' \<le> of_int month_n) (rows df)"

text \<open>The difference of a feature: its sum over the window minus its mean over all rows,
  NaN when the table has no row.\<close>

definition difference :: "table \<Rightarrow> int \<Rightarrow> string \<Rightarrow> rat option" where
  "difference df month_n f =
     nan_diff (series_sum (map (\<lambda>r. r f) (window_rows df month_n)))
       (series_mean (map (\<lambda>r. r f) (rows df)))"

text \<open>A table to run the program on: a row is given by its cells, the months 7 to 9 of
  the six tracked features.\<close>

definition row_of :: "(string \<times> rat) list \<Rightarrow> string \<Rightarrow> rat" where
  "row_of cells name = (case map_of cells name of None \<Rightarrow> 0 | Some v \<Rightarrow> v)"

definition example_table :: table where
  "example_table =
     \<lparr>columns = [''month'', ''s_avg_clustering_coef'', ''t_num_dev_nodes'',
                 ''t_num_dev_per_file'', ''t_graph_density'', ''st_num_dev'', ''t_net_overlap''],
      rows =
        [row_of [(''month'', 7), (''s_avg_clustering_coef'', 1 / 2), (''t_num_dev_nodes'', 4),
                 (''t_num_dev_per_file'', 2), (''t_graph_density'', 1), (''st_num_dev'', 5),
                 (''t_net_overlap'', 3)],
         row_of [(''month'', 8), (''s_avg_clustering_coef'', 1 / 4), (''t_num_dev_nodes'', 6),
                 (''t_num_dev_per_file'', 2), (''t_graph_density'', 2), (''st_num_dev'', 1),
                 (''t_net_overlap'', 3)],
         row_of [(''month'', 9), (''s_avg_clustering_coef'', 3 / 4), (''t_num_dev_nodes'', 8),
                 (''t_num_dev_per_file'', 2), (''t_graph_density'', 6), (''st_num_dev'', 3),
                 (''t_net_overlap'', 3)]]\<rparr>"

text \<open>Reference entries to run the program on.\<close>

definition example_entries :: "entry list" where
  "example_entries =
     [\<lparr>Features = Some ''t_graph_density, st_num_dev'', Importance = Some 2\<rparr>,
      \<lparr>Features = Some ''st_num_dev'', Importance = Some 9\<rparr>,
      \<lparr>Features = Some '' t_net_overlap '', Importance = Some 5\<rparr>,
      \<lparr>Features = None, Importance = Some 7\<rparr>,
      \<lparr>Features = Some ''t_num_dev_nodes'', Importance = None\<rparr>,
      \<lparr>Features = Some ''t_graph_density_x,t_num_dev_per_file'', Importance = Some 2\<rparr>]"

text \<open>The test of the selector's loop on the dict at an address.\<close>

definition keeps :: "'a store \<Rightarrow> string list \<Rightarrow> nat \<Rightarrow> bool" where
  "keeps s features x =
     list_ex (\<lambda>feature. feature \<in> entry_features (dicts s ! x)) features"

text \<open>A store with the reference entries and the list of them, at the address 0.\<close>

definition example_store :: "unit store" where
  "example_store = \<lparr>dicts = example_entries, pylists = [[0, 1, 2, 3, 4, 5]]\<rparr>"

section \<open>Properties of the evaluator\<close>

subsection \<open>Dicts filled by a loop\<close>

lemma set_key_order: "set (key_order ks fs) = set ks \<union> set fs"
  by (induction fs arbitrary: ks) auto

lemma distinct_key_order: "distinct ks \<Longrightarrow> distinct (key_order ks fs)"
  by (induction fs arbitrary: ks) auto

lemma update_tabulated:
  "AList.update f (h f) (map (\<lambda>k. (k, h k)) ks) =
   map (\<lambda>k. (k, h k)) (if f \<in> set ks then ks else ks @ [f])"
  by (induction ks) auto

lemma map_of_tabulated:
  "map_of (map (\<lambda>k. (k, h k)) ks) f = (if f \<in> set ks then Some (h f) else None)"
  by (induction ks) auto

lemma dict_get_tabulated:
  "f \<in> set ks \<Longrightarrow> dict_get (map (\<lambda>k. (k, h k)) ks) f = Inr (h f)"
  by (simp add: dict_get_def map_of_tabulated)

lemma mask_rows:
  "filter snd (zip xs (map q xs)) = map (\<lambda>x. (x, True)) (filter q xs)"
  by (induction xs) auto

lemma avg_loop_ok:
  "set fs \<subseteq> set (columns df) \<Longrightarrow>
   avg_loop df fs (map (\<lambda>k. (k, series_mean (map (\<lambda>r. r k) (rows df)))) ks) =
   Inr (map (\<lambda>k. (k, series_mean (map (\<lambda>r. r k) (rows df)))) (key_order ks fs))"
proof (induction fs arbitrary: ks)
  case Nil
  then show ?case by simp
next
  case (Cons f fs)
  let ?h = "\<lambda>k. series_mean (map (\<lambda>r. r k) (rows df))"
  have "getcol df f = Inr (map (\<lambda>r. r f) (rows df))"
    using Cons.prems by (simp add: getcol_def)
  moreover have "AList.update f (?h f) (map (\<lambda>k. (k, ?h k)) ks) =
      map (\<lambda>k. (k, ?h k)) (if f \<in> set ks then ks else ks @ [f])"
    by (rule update_tabulated)
  ultimately show ?case
    using Cons.IH [of "if f \<in> set ks then ks else ks @ [f]"] Cons.prems
    by simp
qed

lemma getcol_window:
  "''month'' \<in> set (columns df) \<Longrightarrow> f \<in> set (columns df) \<Longrightarrow>
   getcol df ''month'' = Inr ms \<Longrightarrow>
   getcol (select_rows df (between_mask ms (month_n - 2) month_n)) f =
   Inr (map (\<lambda>r. r f) (window_rows df month_n))"
  by (auto simp: getcol_def select_rows_def between_mask_def window_rows_def mask_rows o_def)

lemma monthly_loop_ok:
  "set fs \<subseteq> set (columns df) \<Longrightarrow> ''month'' \<in> set (columns df) \<Longrightarrow>
   monthly_loop df month_n fs
     (map (\<lambda>k. (k, series_sum (map (\<lambda>r. r k) (window_rows df month_n)))) ks) =
   Inr (map (\<lambda>k. (k, series_sum (map (\<lambda>r. r k) (window_rows df month_n)))) (key_order ks fs))"
proof (induction fs arbitrary: ks)
  case Nil
  then show ?case by simp
next
  case (Cons f fs)
  let ?h = "\<lambda>k. series_sum (map (\<lambda>r. r k) (window_rows df month_n))"
  have m: "getcol df ''month'' = Inr (map (\<lambda>r. r ''month'') (rows df))"
    using Cons.prems by (simp add: getcol_def)
  have w: "getcol (select_rows df
        (between_mask (map (\<lambda>r. r ''month'') (rows df)) (month_n - 2) month_n)) f =
      Inr (map (\<lambda>r. r f) (window_rows df month_n))"
    using Cons.prems m by (intro getcol_window) auto
  have u: "AList.update f (?h f) (map (\<lambda>k. (k, ?h k)) ks) =
      map (\<lambda>k. (k, ?h k)) (if f \<in> set ks then ks else ks @ [f])"
    by (rule update_tabulated)
  show ?case
    using Cons.IH [of "if f \<in> set ks then ks else ks @ [f]"] Cons.prems
    by (simp only: monthly_loop.simps m w u sum.case) auto
qed

lemma diff_loop_ok:
  "set fs \<subseteq> set ms \<Longrightarrow> set fs \<subseteq> set as \<Longrightarrow>
   diff_loop (map (\<lambda>k. (k, w k)) ms) (map (\<lambda>k. (k, a k)) as) fs
     (map (\<lambda>k. (k, nan_diff (w k) (a k))) ks) =
   Inr (map (\<lambda>k. (k, nan_diff (w k) (a k))) (key_order ks fs))"
proof (induction fs arbitrary: ks)
  case Nil
  then show ?case by simp
next
  case (Cons f fs)
  let ?h = "\<lambda>k. nan_diff (w k) (a k)"
  have u: "AList.update f (?h f) (map (\<lambda>k. (k, ?h k)) ks) =
      map (\<lambda>k. (k, ?h k)) (if f \<in> set ks then ks else ks @ [f])"
    by (rule update_tabulated)
  have g1: "dict_get (map (\<lambda>k. (k, w k)) ms) f = Inr (w f)"
    using Cons.prems by (intro dict_get_tabulated) auto
  have g2: "dict_get (map (\<lambda>k. (k, a k)) as) f = Inr (a f)"
    using Cons.prems by (intro dict_get_tabulated) auto
  show ?case
    using Cons.IH [of "if f \<in> set ks then ks else ks @ [f]"] Cons.prems
    by (simp only: diff_loop.simps g1 g2 u sum.case) auto
qed

lemma filter_tabulated:
  "map fst (filter (\<lambda>(k, v). P v) (map (\<lambda>k. (k, h k)) ks)) = filter (\<lambda>k. P (h k)) ks"
  by (induction ks) auto

lemma cfd_eq:
  assumes "set fl \<subseteq> set (columns df)" and "fl = [] \<or> ''month'' \<in> set (columns df)"
  shows "calculate_feature_differences df month_n fl =
         Inr (filter (\<lambda>f. le_zero (difference df month_n f)) (key_order [] fl))"
proof (cases "fl = []")
  case True
  then show ?thesis by (simp add: calculate_feature_differences_def)
next
  case False
  with assms have mo: "''month'' \<in> set (columns df)" by simp
  have a: "avg_loop df fl [] =
      Inr (map (\<lambda>k. (k, series_mean (map (\<lambda>r. r k) (rows df)))) (key_order [] fl))"
    using avg_loop_ok [OF assms(1), of "[]"] by simp
  have m: "monthly_loop df month_n fl [] =
      Inr (map (\<lambda>k. (k, series_sum (map (\<lambda>r. r k) (window_rows df month_n)))) (key_order [] fl))"
    using monthly_loop_ok [OF assms(1) mo, of month_n "[]"] by simp
  have d: "diff_loop
      (map (\<lambda>k. (k, series_sum (map (\<lambda>r. r k) (window_rows df month_n)))) (key_order [] fl))
      (map (\<lambda>k. (k, series_mean (map (\<lambda>r. r k) (rows df)))) (key_order [] fl)) fl [] =
      Inr (map (\<lambda>k. (k, difference df month_n k)) (key_order [] fl))"
    using diff_loop_ok [of fl "key_order [] fl" "key_order [] fl" _ _ "[]"]
    by (simp add: set_key_order difference_def)
  show ?thesis
    by (simp add: calculate_feature_differences_def a m d filter_tabulated)
qed


lemma avg_loop_fail:
  "find (\<lambda>f. f \<notin> set (columns df)) fs = Some k \<Longrightarrow> avg_loop df fs d = Inl (KeyError k)"
  by (induction fs arbitrary: d) (auto simp: getcol_def split: if_splits)

lemma monthly_loop_fail:
  "fs \<noteq> [] \<Longrightarrow> ''month'' \<notin> set (columns df) \<Longrightarrow>
   monthly_loop df month_n fs d = Inl (KeyError ''month'')"
  by (cases fs) (auto simp: getcol_def)

lemma cfd_cases:
  "calculate_feature_differences df month_n fl =
     (case find (\<lambda>f. f \<notin> set (columns df)) fl of
        Some k \<Rightarrow> Inl (KeyError k)
      | None \<Rightarrow>
          if fl \<noteq> [] \<and> ''month'' \<notin> set (columns df) then Inl (KeyError ''month'')
          else Inr (filter (\<lambda>f. le_zero (difference df month_n f)) (key_order [] fl)))"
proof (cases "find (\<lambda>f. f \<notin> set (columns df)) fl")
  case (Some k)
  then show ?thesis
    by (simp add: calculate_feature_differences_def avg_loop_fail)
next
  case None
  then have sub: "set fl \<subseteq> set (columns df)"
    by (auto simp: find_None_iff)
  show ?thesis
  proof (cases "fl \<noteq> [] \<and> ''month'' \<notin> set (columns df)")
    case True
    have "avg_loop df fl [] =
        Inr (map (\<lambda>k. (k, series_mean (map (\<lambda>r. r k) (rows df)))) (key_order [] fl))"
      using avg_loop_ok [OF sub, of "[]"] by simp
    with True None show ?thesis
      by (simp add: calculate_feature_differences_def monthly_loop_fail)
  next
    case False
    then have "fl = [] \<or> ''month'' \<in> set (columns df)" by blast
    from cfd_eq [OF sub this] None False show ?thesis by simp
  qed
qed


subsection \<open>The result of the evaluation\<close>



subsection \<open>The order of the rows\<close>







subsection \<open>Errors\<close>

lemma cfd_subset:
  "calculate_feature_differences df month_n fl = Inr res \<Longrightarrow> set res \<subseteq> set fl \<and> distinct res"
  by (auto simp: cfd_cases set_key_order distinct_key_order split: option.splits if_splits)



subsection \<open>Windows above and below the mean\<close>




section \<open>Properties of the selector and of the pipeline\<close>

lemma filter_loop_eq:
  "filter_loop data features acc =
   acc @ filter (\<lambda>entry. list_ex (\<lambda>feature. feature \<in> entry_features entry) features) data"
  by (induction data arbitrary: acc) auto



lemma sorted_reverse_props:
  "sorted_wrt (\<lambda>a b. key b \<le> key a) (sorted_reverse key xs) \<and>
   mset (sorted_reverse key xs) = mset xs \<and>
   (\<forall>k. filter (\<lambda>e. key e = k) (sorted_reverse key xs) = filter (\<lambda>e. key e = k) xs)"
proof -
  have "sorted (map key (sort_key key (rev xs)))"
    by (rule sorted_sort_key)
  then have "sorted_wrt (\<lambda>a b. key a \<le> key b) (sort_key key (rev xs))"
    by (simp add: sorted_map)
  then have 1: "sorted_wrt (\<lambda>a b. key b \<le> key a) (sorted_reverse key xs)"
    by (simp add: sorted_reverse_def sorted_wrt_rev)
  have 2: "mset (sorted_reverse key xs) = mset xs"
    by (simp add: sorted_reverse_def)
  have 3: "filter (\<lambda>e. key e = k) (sorted_reverse key xs) = filter (\<lambda>e. key e = k) xs" for k
    by (simp add: sorted_reverse_def sort_key_stable flip: rev_filter)
  from 1 2 3 show ?thesis by blast
qed

lemma example_run:
  "ReACT_Extractor example_entries example_table 7 False =
     Inr ([\<lparr>Features = Some '' t_net_overlap '', Importance = Some 5\<rparr>,
           \<lparr>Features = Some ''t_graph_density, st_num_dev'', Importance = Some 2\<rparr>,
           \<lparr>Features = Some ''t_graph_density_x,t_num_dev_per_file'', Importance = Some 2\<rparr>,
           \<lparr>Features = Some ''t_num_dev_nodes'', Importance = None\<rparr>], [])"
  by (simp add: ReACT_Extractor_def cfd_cases example_table_def feature_list_def
      difference_def window_rows_def row_of_def series_sum_def series_mean_def nan_diff_def
      le_zero_def filter_json_by_features_def entry_features_def strip_def is_space_def
      example_entries_def sorted_reverse_def importance_key_def)

text \<open>
  C3: the sequence the pipeline returns is a rearrangement of the kept entries in which
  the importance (zero for an entry without the key) never increases, and the entries
  of any one importance stand in the order they have among the kept entries.
\<close>

theorem result_sorted_stable:
  assumes "ReACT_Extractor original_data feature_data month_n write_output = Inr (res, out)"
  shows "\<exists>triggered.
           calculate_feature_differences feature_data month_n feature_list = Inr triggered \<and>
           mset res = mset (filter_json_by_features original_data triggered) \<and>
           sorted_wrt
             (\<lambda>a b. (case Importance a of None \<Rightarrow> 0 | Some v \<Rightarrow> v)
                   \<ge> (case Importance b of None \<Rightarrow> 0 | Some v \<Rightarrow> v)) res \<and>
           (\<forall>k. filter (\<lambda>e. (case Importance e of None \<Rightarrow> 0 | Some v \<Rightarrow> v) = k) res =
                filter (\<lambda>e. (case Importance e of None \<Rightarrow> 0 | Some v \<Rightarrow> v) = k)
                  (filter_json_by_features original_data triggered))"
proof -
  from assms obtain triggered where
    t: "calculate_feature_differences feature_data month_n feature_list = Inr triggered" and
    r: "res = sorted_reverse importance_key (filter_json_by_features original_data triggered)"
    by (auto simp: ReACT_Extractor_def Let_def split: sum.splits)
  have "sorted_wrt (\<lambda>a b. importance_key b \<le> importance_key a) res \<and>
      mset res = mset (filter_json_by_features original_data triggered) \<and>
      (\<forall>k. filter (\<lambda>e. importance_key e = k) res =
           filter (\<lambda>e. importance_key e = k)
             (filter_json_by_features original_data triggered))"
    unfolding r by (rule sorted_reverse_props)
  then show ?thesis
    unfolding importance_key_def using t by blast
qed

theorem result_sorted_stable_witness:
  "ReACT_Extractor example_entries example_table 7 False =
     Inr ([\<lparr>Features = Some '' t_net_overlap '', Importance = Some 5\<rparr>,
           \<lparr>Features = Some ''t_graph_density, st_num_dev'', Importance = Some 2\<rparr>,
           \<lparr>Features = Some ''t_graph_density_x,t_num_dev_per_file'', Importance = Some 2\<rparr>,
           \<lparr>Features = Some ''t_num_dev_nodes'', Importance = None\<rparr>], []) \<and>
   sorted_wrt
     (\<lambda>a b. (case Importance a of None \<Rightarrow> 0 | Some v \<Rightarrow> v)
           \<ge> (case Importance b of None \<Rightarrow> 0 | Some v \<Rightarrow> v))
     [\<lparr>Features = Some '' t_net_overlap '', Importance = Some 5\<rparr>,
      \<lparr>Features = Some ''t_graph_density, st_num_dev'', Importance = Some 2\<rparr>,
      \<lparr>Features = Some ''t_graph_density_x,t_num_dev_per_file'', Importance = Some 2\<rparr>,
      \<lparr>Features = Some ''t_num_dev_nodes'', Importance = None\<rparr>]"
  using result_sorted_stable [OF example_run] example_run by blast

text \<open>
  C4: in every call of the pipeline that returns, the features evaluated are the six
  names written in the program, whatever the arguments, and the triggered features are
  among these six.
\<close>

theorem tracked_features_only:
  assumes "ReACT_Extractor original_data feature_data month_n write_output = Inr (res, out)"
  shows "\<exists>triggered.
           calculate_feature_differences feature_data month_n
             [''s_avg_clustering_coef'', ''t_num_dev_nodes'', ''t_num_dev_per_file'',
              ''t_graph_density'', ''st_num_dev'', ''t_net_overlap''] = Inr triggered \<and>
           set triggered \<subseteq>
             {''s_avg_clustering_coef'', ''t_num_dev_nodes'', ''t_num_dev_per_file'',
              ''t_graph_density'', ''st_num_dev'', ''t_net_overlap''} \<and>
           res = sorted_reverse importance_key (filter_json_by_features original_data triggered)"
proof -
  from assms obtain triggered where
    t: "calculate_feature_differences feature_data month_n feature_list = Inr triggered" and
    r: "res = sorted_reverse importance_key (filter_json_by_features original_data triggered)"
    by (auto simp: ReACT_Extractor_def Let_def split: sum.splits)
  from cfd_subset [OF t] have "set triggered \<subseteq> set feature_list" by simp
  with t r show ?thesis
    by (auto simp: feature_list_def)
qed

theorem tracked_features_only_witness:
  "ReACT_Extractor example_entries example_table 7 False =
     Inr ([\<lparr>Features = Some '' t_net_overlap '', Importance = Some 5\<rparr>,
           \<lparr>Features = Some ''t_graph_density, st_num_dev'', Importance = Some 2\<rparr>,
           \<lparr>Features = Some ''t_graph_density_x,t_num_dev_per_file'', Importance = Some 2\<rparr>,
           \<lparr>Features = Some ''t_num_dev_nodes'', Importance = None\<rparr>], []) \<and>
   (\<exists>triggered.
      calculate_feature_differences example_table 7
        [''s_avg_clustering_coef'', ''t_num_dev_nodes'', ''t_num_dev_per_file'',
         ''t_graph_density'', ''st_num_dev'', ''t_net_overlap''] = Inr triggered \<and>
      set triggered \<subseteq>
        {''s_avg_clustering_coef'', ''t_num_dev_nodes'', ''t_num_dev_per_file'',
         ''t_graph_density'', ''st_num_dev'', ''t_net_overlap''})"
  using tracked_features_only [OF example_run] example_run by blast



section \<open>Properties of the all-months mode\<close>

lemma set_series_unique: "set (series_unique vs) = set vs"
  by (induction vs) auto

lemma py_int_mono: "a \<le> b \<Longrightarrow> py_int a \<le> py_int b"
proof -
  assume ab: "a \<le> b"
  consider "0 \<le> a" | "a < 0" "0 \<le> b" | "b < 0" by linarith
  then show ?thesis
  proof cases
    case 1
    with ab show ?thesis by (simp add: py_int_def floor_mono)
  next
    case 2
    then have "\<lceil>a\<rceil> \<le> 0" and "0 \<le> \<lfloor>b\<rfloor>"
      by (simp_all add: ceiling_le_zero)
    then have "\<lceil>a\<rceil> \<le> \<lfloor>b\<rfloor>" by linarith
    with 2 show ?thesis by (simp add: py_int_def)
  next
    case 3
    with ab show ?thesis by (simp add: py_int_def ceiling_mono)
  qed
qed

lemma sorted_key_order:
  "sorted (ks @ xs) \<Longrightarrow> distinct ks \<Longrightarrow>
   sorted (key_order ks xs) \<and> distinct (key_order ks xs)"
proof (induction xs arbitrary: ks)
  case Nil
  then show ?case by simp
next
  case (Cons x xs)
  show ?case
  proof (cases "x \<in> set ks")
    case True
    from Cons.prems have "sorted (ks @ xs)"
      by (simp add: sorted_append)
    with Cons.IH [of ks] Cons.prems True show ?thesis by simp
  next
    case False
    from Cons.prems have "sorted ((ks @ [x]) @ xs)" by simp
    moreover from Cons.prems False have "distinct (ks @ [x])" by simp
    ultimately show ?thesis
      using Cons.IH [of "ks @ [x]"] False by simp
  qed
qed

lemma extractor_silent:
  "ReACT_Extractor original_data feature_data month_n False = Inr (res, out) \<Longrightarrow> out = []"
  by (auto simp: ReACT_Extractor_def Let_def split: sum.splits)

lemma set_update_subset: "set (AList.update k v al) \<subseteq> insert (k, v) (set al)"
  by (induction al) auto

lemma all_loop_result:
  assumes "all_loop original_data feature_data ms all_results out = Inr (d, out')"
  shows "out' = out \<and>
         map fst d = key_order (map fst all_results) (map py_int ms) \<and>
         set d \<subseteq> set all_results \<union>
           {(k, v). ReACT_Extractor original_data feature_data k False = Inr (v, [])}"
  using assms
proof (induction ms arbitrary: all_results out)
  case Nil
  then show ?case by simp
next
  case (Cons m ms)
  from Cons.prems obtain v w where
    r: "ReACT_Extractor original_data feature_data (py_int m) False = Inr (v, w)" and
    l: "all_loop original_data feature_data ms (AList.update (py_int m) v all_results) (out @ w)
        = Inr (d, out')"
    by (auto split: sum.splits)
  from extractor_silent [OF r] have w: "w = []" .
  from Cons.IH [OF l] have
    1: "out' = out @ w" and
    2: "map fst d = key_order (map fst (AList.update (py_int m) v all_results)) (map py_int ms)" and
    3: "set d \<subseteq> set (AList.update (py_int m) v all_results) \<union>
           {(k, v). ReACT_Extractor original_data feature_data k False = Inr (v, [])}"
    by blast+
  have 4: "set (AList.update (py_int m) v all_results) \<subseteq>
      set all_results \<union> {(k, v). ReACT_Extractor original_data feature_data k False = Inr (v, [])}"
    using set_update_subset [of "py_int m" v all_results] r w by auto
  show ?case
    using 1 2 3 4 w by (auto simp: update_keys)
qed

lemma all_loop_total:
  assumes "\<And>k. \<exists>v w. ReACT_Extractor original_data feature_data k False = Inr (v, w)"
  shows "\<exists>r. all_loop original_data feature_data ms all_results out = Inr r"
proof (induction ms arbitrary: all_results out)
  case Nil
  then show ?case by simp
next
  case (Cons m ms)
  from assms obtain v w where
    "ReACT_Extractor original_data feature_data (py_int m) False = Inr (v, w)" by blast
  with Cons.IH show ?case by simp
qed

lemma extractor_total:
  assumes "''month'' \<in> set (columns feature_data)"
    and "set feature_list \<subseteq> set (columns feature_data)"
  shows "\<exists>v w. ReACT_Extractor original_data feature_data k write_output = Inr (v, w)"
proof -
  have "\<exists>t. calculate_feature_differences feature_data k feature_list = Inr t"
    using cfd_eq [of feature_list feature_data k] assms by simp
  then show ?thesis
    by (auto simp: ReACT_Extractor_def Let_def)
qed

text \<open>
  C7: in the all-months mode the run succeeds when the table has the column
  \<open>month\<close> and the six tracked columns, and whenever it succeeds it writes one dict and
  nothing before it: the keys of the dict are the values of the column \<open>month\<close>, each
  cast to an integer, in ascending order and without repetition, and every key maps to
  the result of the pipeline for that month run without writing.
\<close>

theorem all_months_mapping:
  "(''month'' \<in> set (columns feature_data) \<and> set feature_list \<subseteq> set (columns feature_data)
      \<longrightarrow> (\<exists>out. main_body True args_month original_data feature_data = Inr out)) \<and>
   (\<forall>out. main_body True args_month original_data feature_data = Inr out \<longrightarrow>
      (\<exists>all_results.
         out = [Dump_dict all_results,
                Print_text ''ReACTs for ALL months saved in `extracted_react.json` file.''] \<and>
         fst ` set all_results = py_int ` (\<lambda>r. r ''month'') ` set (rows feature_data) \<and>
         sorted (map fst all_results) \<and> distinct (map fst all_results) \<and>
         (\<forall>k v. (k, v) \<in> set all_results \<longrightarrow>
            ReACT_Extractor original_data feature_data k False = Inr (v, []))))"
proof (intro conjI impI allI)
  assume c: "''month'' \<in> set (columns feature_data) \<and>
    set feature_list \<subseteq> set (columns feature_data)"
  then have "\<exists>v w. ReACT_Extractor original_data feature_data k False = Inr (v, w)" for k
    by (intro extractor_total) auto
  from all_loop_total [of original_data feature_data, OF this]
  obtain r where "all_loop original_data feature_data
      (sort (series_unique (map (\<lambda>r. r ''month'') (rows feature_data)))) [] [] = Inr r"
    by blast
  with c show "\<exists>out. main_body True args_month original_data feature_data = Inr out"
    by (cases r) (simp add: main_body_def getcol_def)
next
  fix out
  assume m: "main_body True args_month original_data feature_data = Inr out"
  let ?months = "map (\<lambda>r. r ''month'') (rows feature_data)"
  let ?ms = "sort (series_unique ?months)"
  from m obtain d w where
    l: "all_loop original_data feature_data ?ms [] [] = Inr (d, w)" and
    o: "out = w @ [Dump_dict d,
          Print_text ''ReACTs for ALL months saved in `extracted_react.json` file.'']"
    by (auto simp: main_body_def getcol_def split: if_splits sum.splits)
  from all_loop_result [OF l] have
    1: "w = []" and
    2: "map fst d = key_order [] (map py_int ?ms)" and
    3: "set d \<subseteq> {(k, v). ReACT_Extractor original_data feature_data k False = Inr (v, [])}"
    by auto
  have "sorted_wrt (\<lambda>x y. py_int x \<le> py_int y) ?ms"
    by (rule sorted_wrt_mono_rel [where P = "(\<le>)"]) (auto simp: py_int_mono)
  then have "sorted ([] @ map py_int ?ms)"
    by (simp add: sorted_map)
  from sorted_key_order [OF this] 2 have 4: "sorted (map fst d) \<and> distinct (map fst d)"
    by simp
  have "set (map fst d) = py_int ` set ?ms"
    by (simp add: 2 set_key_order)
  then have 5: "fst ` set d = py_int ` (\<lambda>r. r ''month'') ` set (rows feature_data)"
    by (simp add: set_series_unique)
  show "\<exists>all_results.
         out = [Dump_dict all_results,
                Print_text ''ReACTs for ALL months saved in `extracted_react.json` file.''] \<and>
         fst ` set all_results = py_int ` (\<lambda>r. r ''month'') ` set (rows feature_data) \<and>
         sorted (map fst all_results) \<and> distinct (map fst all_results) \<and>
         (\<forall>k v. (k, v) \<in> set all_results \<longrightarrow>
            ReACT_Extractor original_data feature_data k False = Inr (v, []))"
    using o 1 3 4 5 by blast
qed

theorem all_months_mapping_witness:
  "''month'' \<in> set (columns example_table) \<and>
   set feature_list \<subseteq> set (columns example_table) \<and>
   main_body True 9 example_entries example_table =
     Inr [Dump_dict
            [(7, [\<lparr>Features = Some '' t_net_overlap '', Importance = Some 5\<rparr>,
                  \<lparr>Features = Some ''t_graph_density, st_num_dev'', Importance = Some 2\<rparr>,
                  \<lparr>Features = Some ''t_graph_density_x,t_num_dev_per_file'',
                     Importance = Some 2\<rparr>,
                  \<lparr>Features = Some ''t_num_dev_nodes'', Importance = None\<rparr>]),
             (8, [\<lparr>Features = Some ''t_graph_density, st_num_dev'', Importance = Some 2\<rparr>]),
             (9, [])],
          Print_text ''ReACTs for ALL months saved in `extracted_react.json` file.''] \<and>
   py_int ` (\<lambda>r. r ''month'') ` set (rows example_table) = {7, 8, 9}"
proof -
  let ?d = "[(7, [\<lparr>Features = Some '' t_net_overlap '', Importance = Some 5\<rparr>,
                  \<lparr>Features = Some ''t_graph_density, st_num_dev'', Importance = Some 2\<rparr>,
                  \<lparr>Features = Some ''t_graph_density_x,t_num_dev_per_file'',
                     Importance = Some 2\<rparr>,
                  \<lparr>Features = Some ''t_num_dev_nodes'', Importance = None\<rparr>]),
             (8, [\<lparr>Features = Some ''t_graph_density, st_num_dev'', Importance = Some 2\<rparr>]),
             (9::int, [])]"
  have h1: "''month'' \<in> set (columns example_table)"
    by (simp add: example_table_def)
  have h2: "set feature_list \<subseteq> set (columns example_table)"
    by (simp add: example_table_def feature_list_def)
  have run: "main_body True 9 example_entries example_table =
     Inr [Dump_dict ?d,
          Print_text ''ReACTs for ALL months saved in `extracted_react.json` file.'']"
    by (simp add: main_body_def getcol_def py_int_def
        ReACT_Extractor_def cfd_cases example_table_def feature_list_def
        difference_def window_rows_def row_of_def series_sum_def series_mean_def nan_diff_def
        le_zero_def filter_json_by_features_def entry_features_def strip_def is_space_def
        example_entries_def sorted_reverse_def importance_key_def)
  from all_months_mapping [of example_table 9 example_entries] run
  obtain ar where a: "[Dump_dict ?d,
          Print_text ''ReACTs for ALL months saved in `extracted_react.json` file.''] =
        [Dump_dict ar,
          Print_text ''ReACTs for ALL months saved in `extracted_react.json` file.'']"
    and k: "fst ` set ar = py_int ` (\<lambda>r. r ''month'') ` set (rows example_table)"
    by blast
  from a have "ar = ?d" by simp
  with k have "py_int ` (\<lambda>r. r ''month'') ` set (rows example_table) = {7, 8, 9}"
    by auto
  with h1 h2 run show ?thesis by blast
qed

section \<open>What a call leaves unchanged\<close>

lemma filter_loop_st_run:
  assumes "data \<noteq> fd" and "data < length (pylists s)" and "fd < length (pylists s)"
  shows "filter_loop_st s data i features fd =
         Some (s\<lparr>pylists := (pylists s)
                   [fd := pylists s ! fd @
                      filter (keeps s features) (drop i (pylists s ! data))]\<rparr>)"
  using assms
proof (induction "length (pylists s ! data) - i" arbitrary: s i)
  case 0
  then have "\<not> i < length (pylists s ! data)" by simp
  then show ?case
    by (subst filter_loop_st.simps) simp
next
  case (Suc n)
  then have lt: "i < length (pylists s ! data)" by simp
  let ?x = "pylists s ! data ! i"
  have d: "drop i (pylists s ! data) = ?x # drop (Suc i) (pylists s ! data)"
    using lt by (simp add: Cons_nth_drop_Suc)
  show ?case
  proof (cases "keeps s features ?x")
    case True
    let ?s = "list_append s fd ?x"
    have 1: "pylists ?s ! data = pylists s ! data" "dicts ?s = dicts s"
      "length (pylists ?s) = length (pylists s)"
      "pylists ?s ! fd = pylists s ! fd @ [?x]"
      using Suc.prems by (simp_all add: list_append_def)
    have k: "keeps ?s features = keeps s features"
      by (rule ext) (simp add: keeps_def 1)
    have "n = length (pylists ?s ! data) - Suc i"
      using Suc.hyps(2) 1 by simp
    from Suc.hyps(1) [OF this] Suc.prems 1
    have "filter_loop_st ?s data (Suc i) features fd =
        Some (?s\<lparr>pylists := (pylists ?s)
           [fd := pylists ?s ! fd @
              filter (keeps ?s features) (drop (Suc i) (pylists ?s ! data))]\<rparr>)"
      by simp
    then show ?thesis
      using lt True
      by (subst filter_loop_st.simps)
        (simp add: keeps_def [symmetric] 1 k d, simp add: list_append_def)
  next
    case False
    have "n = length (pylists s ! data) - Suc i"
      using Suc.hyps(2) by simp
    from Suc.hyps(1) [OF this] Suc.prems
    have "filter_loop_st s data (Suc i) features fd =
        Some (s\<lparr>pylists := (pylists s)
           [fd := pylists s ! fd @
              filter (keeps s features) (drop (Suc i) (pylists s ! data))]\<rparr>)"
      by simp
    then show ?thesis
      using lt False
      by (subst filter_loop_st.simps) (simp add: keeps_def [symmetric] d)
  qed
qed

lemma insort_key_map:
  "insort_key key (f x) (map f xs) = map f (insort_key (\<lambda>y. key (f y)) x xs)"
  by (induction xs) auto

lemma sort_key_map:
  "sort_key key (map f xs) = map f (sort_key (\<lambda>y. key (f y)) xs)"
  by (induction xs) (auto simp: insort_key_map)

lemma sorted_reverse_map:
  "sorted_reverse key (map f xs) = map f (sorted_reverse (\<lambda>y. key (f y)) xs)"
  by (simp add: sorted_reverse_def sort_key_map rev_map)

lemma filter_json_by_features_st_run:
  assumes "data < length (pylists s)"
  shows "filter_json_by_features_st s data features =
         Some (length (pylists s),
               s\<lparr>pylists := pylists s @ [filter (keeps s features) (pylists s ! data)]\<rparr>)"
proof -
  let ?s1 = "s\<lparr>pylists := pylists s @ [[]]\<rparr>"
  let ?fd = "length (pylists s)"
  have k: "keeps ?s1 features = keeps s features"
    by (rule ext) (simp add: keeps_def)
  have "filter_loop_st ?s1 data 0 features ?fd =
      Some (?s1\<lparr>pylists := (pylists ?s1)
         [?fd := pylists ?s1 ! ?fd @
            filter (keeps ?s1 features) (drop 0 (pylists ?s1 ! data))]\<rparr>)"
    using assms by (intro filter_loop_st_run) auto
  then show ?thesis
    using assms by (simp add: filter_json_by_features_st_def new_list_def k nth_append)
qed

text \<open>
  C8: a call of the pipeline on a store in which the reference collection is a list
  object returns (it never runs forever), and when it returns a result, every dict of
  the store is as it was, every list object that existed is as it was, the collection
  among them, and the result is a new list whose elements are addresses taken from the
  collection, each at most as often as it stands there: the entries themselves,
  selected and reordered. Read on the values, the call is the pipeline above.
\<close>

theorem extractor_leaves_input_unchanged:
  assumes "original_data < length (pylists s)"
  shows "\<exists>result.
           ReACT_Extractor_st s original_data feature_data month_n write_output = Some result \<and>
           (case result of
              Inl e \<Rightarrow>
                ReACT_Extractor (map (\<lambda>x. dicts s ! x) (pylists s ! original_data))
                  feature_data month_n write_output = Inl e
            | Inr (sorted_json, out, s') \<Rightarrow>
                dicts s' = dicts s \<and>
                take (length (pylists s)) (pylists s') = pylists s \<and>
                pylists s' ! original_data = pylists s ! original_data \<and>
                mset (pylists s' ! sorted_json) \<subseteq># mset (pylists s ! original_data) \<and>
                ReACT_Extractor (map (\<lambda>x. dicts s ! x) (pylists s ! original_data))
                  feature_data month_n write_output =
                  Inr (map (\<lambda>x. dicts s ! x) (pylists s' ! sorted_json), out))"
proof (cases "calculate_feature_differences feature_data month_n feature_list")
  case (Inl e)
  then show ?thesis
    by (simp add: ReACT_Extractor_st_def ReACT_Extractor_def)
next
  case (Inr pf)
  let ?data = "pylists s ! original_data"
  let ?kept = "filter (keeps s pf) ?data"
  let ?s1 = "s\<lparr>pylists := pylists s @ [?kept]\<rparr>"
  let ?sorted = "sorted_reverse (\<lambda>x. importance_key (dicts s ! x)) ?kept"
  let ?s2 = "s\<lparr>pylists := pylists s @ [?kept, ?sorted]\<rparr>"
  let ?out = "if write_output
     then [Dump_list (map (\<lambda>x. dicts s ! x) ?sorted),
           Print_text ''ReACTs saved in `extracted_react.json` file.'']
     else []"
  have f: "filter_json_by_features_st s original_data pf = Some (length (pylists s), ?s1)"
    using assms by (rule filter_json_by_features_st_run)
  have so: "sorted_st ?s1 (length (pylists s)) = (Suc (length (pylists s)), ?s2)"
    by (simp add: sorted_st_def new_list_def)
  have run: "ReACT_Extractor_st s original_data feature_data month_n write_output =
      Some (Inr (Suc (length (pylists s)), ?out, ?s2))"
    by (simp add: ReACT_Extractor_st_def Inr f so nth_append)
  have kp: "filter_json_by_features (map (\<lambda>x. dicts s ! x) ?data) pf =
      map (\<lambda>x. dicts s ! x) ?kept"
    by (simp add: filter_json_by_features_def filter_loop_eq filter_map o_def
        keeps_def [abs_def])
  have pure: "ReACT_Extractor (map (\<lambda>x. dicts s ! x) ?data) feature_data month_n write_output
      = Inr (map (\<lambda>x. dicts s ! x) ?sorted, ?out)"
    by (simp add: ReACT_Extractor_def Inr kp sorted_reverse_map Let_def)
  have sub: "mset ?sorted \<subseteq># mset ?data"
    by (simp add: sorted_reverse_def)
  show ?thesis
    using assms pure sub by (simp add: run nth_append)
qed

theorem extractor_leaves_input_unchanged_witness:
  "0 < length (pylists example_store) \<and>
   (\<exists>sorted_json out s'.
      ReACT_Extractor_st example_store 0 example_table 7 False =
        Some (Inr (sorted_json, out, s')) \<and>
      dicts s' = dicts example_store \<and>
      take (length (pylists example_store)) (pylists s') = pylists example_store \<and>
      map (\<lambda>x. dicts example_store ! x) (pylists s' ! sorted_json) =
        [\<lparr>Features = Some '' t_net_overlap '', Importance = Some 5\<rparr>,
         \<lparr>Features = Some ''t_graph_density, st_num_dev'', Importance = Some 2\<rparr>,
         \<lparr>Features = Some ''t_graph_density_x,t_num_dev_per_file'', Importance = Some 2\<rparr>,
         \<lparr>Features = Some ''t_num_dev_nodes'', Importance = None\<rparr>])"
proof -
  have h: "0 < length (pylists example_store)"
    by (simp add: example_store_def)
  have d: "map (\<lambda>x. dicts example_store ! x) (pylists example_store ! 0) = example_entries"
    by (simp add: example_store_def example_entries_def)
  from extractor_leaves_input_unchanged [OF h, of example_table 7 False]
  obtain result where
    r: "ReACT_Extractor_st example_store 0 example_table 7 False = Some result" and
    c: "case result of
          Inl e \<Rightarrow> ReACT_Extractor example_entries example_table 7 False = Inl e
        | Inr (sorted_json, out, s') \<Rightarrow>
            dicts s' = dicts example_store \<and>
            take (length (pylists example_store)) (pylists s') = pylists example_store \<and>
            pylists s' ! 0 = pylists example_store ! 0 \<and>
            mset (pylists s' ! sorted_json) \<subseteq># mset (pylists example_store ! 0) \<and>
            ReACT_Extractor example_entries example_table 7 False =
              Inr (map (\<lambda>x. dicts example_store ! x) (pylists s' ! sorted_json), out)"
    unfolding d by blast
  show ?thesis
  proof (cases result)
    case (Inl e)
    with c example_run show ?thesis by simp
  next
    case (Inr t)
    obtain sorted_json out s' where t: "t = (sorted_json, out, s')"
      by (cases t) auto
    from c example_run have
      "dicts s' = dicts example_store \<and>
       take (length (pylists example_store)) (pylists s') = pylists example_store \<and>
       map (\<lambda>x. dicts example_store ! x) (pylists s' ! sorted_json) =
        [\<lparr>Features = Some '' t_net_overlap '', Importance = Some 5\<rparr>,
         \<lparr>Features = Some ''t_graph_density, st_num_dev'', Importance = Some 2\<rparr>,
         \<lparr>Features = Some ''t_graph_density_x,t_num_dev_per_file'', Importance = Some 2\<rparr>,
         \<lparr>Features = Some ''t_num_dev_nodes'', Importance = None\<rparr>]"
      unfolding Inr t by simp
    with h r [unfolded Inr t] show ?thesis
      by (intro conjI exI [of _ sorted_json] exI [of _ out] exI [of _ s']) (rule h, simp_all only:)
  qed
qed

end
